theory Spec2Isabelle
  imports Complex_Main "HOL-Library.Multiset"
begin

section \<open>Collision objects and the brute-force broadphase manager of FCL\<close>

text \<open>
  The development embeds two source files: the collision-object header (classes
  \<^verbatim>\<open>CollisionGeometry\<close> and \<^verbatim>\<open>CollisionObject\<close>) and
  \<^verbatim>\<open>broadphase_bruteforce.h\<close> (class \<^verbatim>\<open>NaiveCollisionManager\<close>).
  The scalar type \<^verbatim>\<open>FCL_REAL\<close> (and the template parameter \<^verbatim>\<open>S\<close>) is
  read as the type of real numbers: rounding, infinities and NaN are not modelled.
  Objects, geometries and managers are referred to by address (a natural number) and
  live in an explicit store, because the code shares geometries between objects and
  compares objects and managers by pointer.
\<close>

subsection \<open>Vectors, matrices, quaternions\<close>

text \<open>
  Modelled from the spec: \<^verbatim>\<open>Vec3f\<close>, \<^verbatim>\<open>Matrix3f\<close>, \<^verbatim>\<open>Quaternion3f\<close> and
  \<^verbatim>\<open>Transform3f\<close> come from \<^verbatim>\<open>fcl/transform.h\<close>, which is not among the sources. The
  spec asks for a rigid-pose type exposing translation, rotation and an identity test; the pose
  is kept as a rotation matrix and a translation vector.
\<close>

datatype Vec3f = Vec3f (vx: real) (vy: real) (vz: real)

definition vadd :: "Vec3f \<Rightarrow> Vec3f \<Rightarrow> Vec3f" where
  "vadd a b = Vec3f (vx a + vx b) (vy a + vy b) (vz a + vz b)"

definition vsub :: "Vec3f \<Rightarrow> Vec3f \<Rightarrow> Vec3f" where
  "vsub a b = Vec3f (vx a - vx b) (vy a - vy b) (vz a - vz b)"

definition dot :: "Vec3f \<Rightarrow> Vec3f \<Rightarrow> real" where
  "dot a b = vx a * vx b + vy a * vy b + vz a * vz b"

definition sqrLength :: "Vec3f \<Rightarrow> real" where
  "sqrLength a = dot a a"

datatype Matrix3f = Matrix3f (row0: Vec3f) (row1: Vec3f) (row2: Vec3f)

definition Matrix3f_identity :: Matrix3f where
  "Matrix3f_identity = Matrix3f (Vec3f 1 0 0) (Vec3f 0 1 0) (Vec3f 0 0 1)"

definition mat_vec :: "Matrix3f \<Rightarrow> Vec3f \<Rightarrow> Vec3f" where
  "mat_vec m v = Vec3f (dot (row0 m) v) (dot (row1 m) v) (dot (row2 m) v)"

datatype Quaternion3f = Quaternion3f (qw: real) (qx: real) (qy: real) (qz: real)

definition toRotation :: "Quaternion3f \<Rightarrow> Matrix3f" where
  "toRotation q =
     (let w = qw q; x = qx q; y = qy q; z = qz q in
      Matrix3f (Vec3f (1 - 2 * (y * y + z * z)) (2 * (x * y - w * z)) (2 * (x * z + w * y)))
               (Vec3f (2 * (x * y + w * z)) (1 - 2 * (x * x + z * z)) (2 * (y * z - w * x)))
               (Vec3f (2 * (x * z - w * y)) (2 * (y * z + w * x)) (1 - 2 * (x * x + y * y))))"

record Transform3f =
  rotation :: Matrix3f
  translation :: Vec3f

definition Transform3f_identity :: Transform3f where
  "Transform3f_identity = \<lparr>rotation = Matrix3f_identity, translation = Vec3f 0 0 0\<rparr>"

text \<open>The test \<^verbatim>\<open>t.getQuatRotation().isIdentity()\<close>: the rotation part is the identity.\<close>

definition rotation_isIdentity :: "Transform3f \<Rightarrow> bool" where
  "rotation_isIdentity tf \<longleftrightarrow> rotation tf = Matrix3f_identity"

definition Transform3f_isIdentity :: "Transform3f \<Rightarrow> bool" where
  "Transform3f_isIdentity tf \<longleftrightarrow> rotation_isIdentity tf \<and> translation tf = Vec3f 0 0 0"

text \<open>\<^verbatim>\<open>t.transform(v)\<close>: rotate, then translate.\<close>

definition transform :: "Transform3f \<Rightarrow> Vec3f \<Rightarrow> Vec3f" where
  "transform tf v = vadd (mat_vec (rotation tf) v) (translation tf)"

text \<open>A rotation matrix has orthonormal columns.\<close>

definition orthonormal :: "Matrix3f \<Rightarrow> bool" where
  "orthonormal m \<longleftrightarrow>
     (let c0 = Vec3f (vx (row0 m)) (vx (row1 m)) (vx (row2 m));
          c1 = Vec3f (vy (row0 m)) (vy (row1 m)) (vy (row2 m));
          c2 = Vec3f (vz (row0 m)) (vz (row1 m)) (vz (row2 m))
      in dot c0 c0 = 1 \<and> dot c1 c1 = 1 \<and> dot c2 c2 = 1 \<and>
         dot c0 c1 = 0 \<and> dot c0 c2 = 0 \<and> dot c1 c2 = 0)"

subsection \<open>Axis-aligned bounding boxes\<close>

text \<open>
  The fields \<open>aabb_min\<close> and \<open>aabb_max\<close> are the members \<^verbatim>\<open>min_\<close> and
  \<^verbatim>\<open>max_\<close> that \<^verbatim>\<open>computeAABB\<close> assigns (a name cannot end in an underscore here).
\<close>

record AABB =
  aabb_min :: Vec3f
  aabb_max :: Vec3f

text \<open>
  Modelled from the spec: \<^verbatim>\<open>AABB::overlap\<close>, \<^verbatim>\<open>AABB::distance\<close> and
  \<^verbatim>\<open>AABB::contain\<close> are declared in \<^verbatim>\<open>fcl/BV/AABB.h\<close>, which is not among the
  sources. The spec describes \<open>overlap(other)\<close> as a boolean test and \<open>distance(other)\<close> as a
  symmetric, non-negative lower bound on the distance of the enclosed shapes that is zero when
  the boxes touch or overlap: the boxes overlap when their extents meet on every axis, and the
  distance is the Euclidean length of the per-axis gaps.
\<close>

definition overlap :: "AABB \<Rightarrow> AABB \<Rightarrow> bool" where
  "overlap a b \<longleftrightarrow>
     \<not> (vx (aabb_min a) > vx (aabb_max b)) \<and> \<not> (vy (aabb_min a) > vy (aabb_max b)) \<and> \<not> (vz (aabb_min a) > vz (aabb_max b)) \<and>
     \<not> (vx (aabb_max a) < vx (aabb_min b)) \<and> \<not> (vy (aabb_max a) < vy (aabb_min b)) \<and> \<not> (vz (aabb_max a) < vz (aabb_min b))"

definition axis_gap :: "real \<Rightarrow> real \<Rightarrow> real \<Rightarrow> real \<Rightarrow> real" where
  "axis_gap amin amax bmin bmax =
     (if amin > bmax then (bmax - amin) * (bmax - amin)
      else if bmin > amax then (amax - bmin) * (amax - bmin)
      else 0)"

definition distance :: "AABB \<Rightarrow> AABB \<Rightarrow> real" where
  "distance a b =
     sqrt (axis_gap (vx (aabb_min a)) (vx (aabb_max a)) (vx (aabb_min b)) (vx (aabb_max b)) +
           axis_gap (vy (aabb_min a)) (vy (aabb_max a)) (vy (aabb_min b)) (vy (aabb_max b)) +
           axis_gap (vz (aabb_min a)) (vz (aabb_max a)) (vz (aabb_min b)) (vz (aabb_max b)))"

definition contain :: "AABB \<Rightarrow> Vec3f \<Rightarrow> bool" where
  "contain a p \<longleftrightarrow>
     vx (aabb_min a) \<le> vx p \<and> vx p \<le> vx (aabb_max a) \<and>
     vy (aabb_min a) \<le> vy p \<and> vy p \<le> vy (aabb_max a) \<and>
     vz (aabb_min a) \<le> vz p \<and> vz p \<le> vz (aabb_max a)"


subsection \<open>Geometries and objects\<close>

record CollisionGeometry =
  aabb_center :: Vec3f
  aabb_radius :: real
  aabb_local :: AABB
  user_data :: nat
  cost_density :: real
  threshold_occupied :: real
  threshold_free :: real

definition isOccupied :: "CollisionGeometry \<Rightarrow> bool" where
  "isOccupied g \<longleftrightarrow> cost_density g \<ge> threshold_occupied g"

definition isFree :: "CollisionGeometry \<Rightarrow> bool" where
  "isFree g \<longleftrightarrow> cost_density g \<le> threshold_free g"

definition isUncertain :: "CollisionGeometry \<Rightarrow> bool" where
  "isUncertain g \<longleftrightarrow> \<not> isOccupied g \<and> \<not> isFree g"

text \<open>
  \<^verbatim>\<open>cgeom\<close> is the shared pointer to the geometry (its address in the store), \<^verbatim>\<open>t\<close> the
  pose, \<^verbatim>\<open>aabb\<close> the cached bound in world coordinates.
\<close>

record CollisionObject =
  cgeom :: nat
  t :: Transform3f
  aabb :: AABB
  obj_user_data :: nat

text \<open>The registry of a manager: \<^verbatim>\<open>std::list<CollisionObject*> objs\<close>.\<close>

record NaiveCollisionManager =
  objs :: "nat list"

record World =
  geoms :: "nat \<Rightarrow> CollisionGeometry"
  objects :: "nat \<Rightarrow> CollisionObject"
  managers :: "nat \<Rightarrow> NaiveCollisionManager"

definition getAABB :: "World \<Rightarrow> nat \<Rightarrow> AABB" where
  "getAABB W this = aabb (objects W this)"

definition computeAABB :: "World \<Rightarrow> nat \<Rightarrow> World" where
  "computeAABB W this =
     (let obj = objects W this; g = geoms W (cgeom obj) in
      if rotation_isIdentity (t obj)
      then W\<lparr>objects := (objects W)(this := obj\<lparr>aabb := aabb_local g\<rparr>)\<rparr>
      else
        (let center = transform (t obj) (aabb_center g);
             delta = Vec3f (aabb_radius g) (aabb_radius g) (aabb_radius g)
         in W\<lparr>objects := (objects W)(this :=
                obj\<lparr>aabb := (aabb obj)\<lparr>aabb_min := vsub center delta, aabb_max := vadd center delta\<rparr>\<rparr>)\<rparr>))"

text \<open>
  The constructors. \<^verbatim>\<open>computeLocalAABB\<close> is pure virtual: the implementation of the
  geometry's dynamic type is the parameter \<open>computeLocalAABB\<close>, a function on the geometry's
  state. The object is built at address \<open>this\<close>; \<^verbatim>\<open>user_data\<close> is not initialised and
  keeps whatever the memory held.
\<close>

definition CollisionObject_tf :: "(CollisionGeometry \<Rightarrow> CollisionGeometry) \<Rightarrow> World \<Rightarrow> nat \<Rightarrow> nat \<Rightarrow> Transform3f \<Rightarrow> World" where
  "CollisionObject_tf computeLocalAABB W this cgeom' tf =
     (let W1 = W\<lparr>objects := (objects W)(this := (objects W this)\<lparr>cgeom := cgeom', t := tf\<rparr>)\<rparr>;
          W2 = W1\<lparr>geoms := (geoms W1)(cgeom' := computeLocalAABB (geoms W1 cgeom'))\<rparr>
      in computeAABB W2 this)"

definition CollisionObject_geom :: "(CollisionGeometry \<Rightarrow> CollisionGeometry) \<Rightarrow> World \<Rightarrow> nat \<Rightarrow> nat \<Rightarrow> World" where
  "CollisionObject_geom computeLocalAABB W this cgeom' =
     CollisionObject_tf computeLocalAABB W this cgeom' Transform3f_identity"

definition CollisionObject_RT :: "(CollisionGeometry \<Rightarrow> CollisionGeometry) \<Rightarrow> World \<Rightarrow> nat \<Rightarrow> nat \<Rightarrow> Matrix3f \<Rightarrow> Vec3f \<Rightarrow> World" where
  "CollisionObject_RT computeLocalAABB W this cgeom' R T =
     CollisionObject_tf computeLocalAABB W this cgeom' \<lparr>rotation = R, translation = T\<rparr>"

text \<open>The pose setters; each one is a call on the member \<^verbatim>\<open>t\<close>.\<close>

definition upd_pose :: "World \<Rightarrow> nat \<Rightarrow> (Transform3f \<Rightarrow> Transform3f) \<Rightarrow> World" where
  "upd_pose W this f = W\<lparr>objects := (objects W)(this := (objects W this)\<lparr>t := f (t (objects W this))\<rparr>)\<rparr>"

definition setRotation :: "World \<Rightarrow> nat \<Rightarrow> Matrix3f \<Rightarrow> World" where
  "setRotation W this R = upd_pose W this (\<lambda>tf. tf\<lparr>rotation := R\<rparr>)"

definition setTranslation :: "World \<Rightarrow> nat \<Rightarrow> Vec3f \<Rightarrow> World" where
  "setTranslation W this T = upd_pose W this (\<lambda>tf. tf\<lparr>translation := T\<rparr>)"

definition setQuatRotation :: "World \<Rightarrow> nat \<Rightarrow> Quaternion3f \<Rightarrow> World" where
  "setQuatRotation W this q = upd_pose W this (\<lambda>tf. tf\<lparr>rotation := toRotation q\<rparr>)"

definition setTransform_RT :: "World \<Rightarrow> nat \<Rightarrow> Matrix3f \<Rightarrow> Vec3f \<Rightarrow> World" where
  "setTransform_RT W this R T = upd_pose W this (\<lambda>tf. tf\<lparr>rotation := R, translation := T\<rparr>)"

definition setTransform_qT :: "World \<Rightarrow> nat \<Rightarrow> Quaternion3f \<Rightarrow> Vec3f \<Rightarrow> World" where
  "setTransform_qT W this q T = upd_pose W this (\<lambda>tf. tf\<lparr>rotation := toRotation q, translation := T\<rparr>)"

definition setTransform :: "World \<Rightarrow> nat \<Rightarrow> Transform3f \<Rightarrow> World" where
  "setTransform W this tf = upd_pose W this (\<lambda>_. tf)"

definition setIdentityTransform :: "World \<Rightarrow> nat \<Rightarrow> World" where
  "setIdentityTransform W this = upd_pose W this (\<lambda>_. Transform3f_identity)"

definition isIdentityTransform :: "World \<Rightarrow> nat \<Rightarrow> bool" where
  "isIdentityTransform W this = Transform3f_isIdentity (t (objects W this))"

definition getCostDensity :: "World \<Rightarrow> nat \<Rightarrow> real" where
  "getCostDensity W this = cost_density (geoms W (cgeom (objects W this)))"

definition setCostDensity :: "World \<Rightarrow> nat \<Rightarrow> real \<Rightarrow> World" where
  "setCostDensity W this c =
     W\<lparr>geoms := (geoms W)(cgeom (objects W this) := (geoms W (cgeom (objects W this)))\<lparr>cost_density := c\<rparr>)\<rparr>"

subsection \<open>The brute-force manager: registry\<close>

definition registerObjects :: "NaiveCollisionManager \<Rightarrow> nat list \<Rightarrow> NaiveCollisionManager" where
  "registerObjects m other_objs = m\<lparr>objs := objs m @ other_objs\<rparr>"

text \<open>\<^verbatim>\<open>std::list::remove\<close> erases every element equal to its argument.\<close>

definition unregisterObject :: "NaiveCollisionManager \<Rightarrow> nat \<Rightarrow> NaiveCollisionManager" where
  "unregisterObject m obj = m\<lparr>objs := removeAll obj (objs m)\<rparr>"

definition registerObject :: "NaiveCollisionManager \<Rightarrow> nat \<Rightarrow> NaiveCollisionManager" where
  "registerObject m obj = m\<lparr>objs := objs m @ [obj]\<rparr>"

definition setup_mgr :: "NaiveCollisionManager \<Rightarrow> NaiveCollisionManager" where
  "setup_mgr m = m"

definition update_mgr :: "NaiveCollisionManager \<Rightarrow> NaiveCollisionManager" where
  "update_mgr m = m"

definition clear :: "NaiveCollisionManager \<Rightarrow> NaiveCollisionManager" where
  "clear m = m\<lparr>objs := []\<rparr>"

definition getObjects :: "NaiveCollisionManager \<Rightarrow> nat list" where
  "getObjects m = objs m"

definition size_mgr :: "NaiveCollisionManager \<Rightarrow> nat" where
  "size_mgr m = length (objs m)"

definition empty_mgr :: "NaiveCollisionManager \<Rightarrow> bool" where
  "empty_mgr m \<longleftrightarrow> objs m = []"

text \<open>A manager is driven by a sequence of registry calls, starting from the empty registry.\<close>

datatype registry_call =
  RegisterObject nat | RegisterObjects "nat list" | UnregisterObject nat | Clear

fun registry_step :: "NaiveCollisionManager \<Rightarrow> registry_call \<Rightarrow> NaiveCollisionManager" where
  "registry_step m (RegisterObject x) = registerObject m x"
| "registry_step m (RegisterObjects xs) = registerObjects m xs"
| "registry_step m (UnregisterObject x) = unregisterObject m x"
| "registry_step m Clear = clear m"

definition new_manager :: NaiveCollisionManager where
  "new_manager = \<lparr>objs = []\<rparr>"

definition run_registry :: "registry_call list \<Rightarrow> NaiveCollisionManager" where
  "run_registry calls = foldl registry_step new_manager calls"

text \<open>
  Bookkeeping beside the run: the occurrences a call adds and the occurrences it removes,
  read off the registry the call is made on.
\<close>

fun added :: "NaiveCollisionManager \<Rightarrow> registry_call \<Rightarrow> nat" where
  "added m (RegisterObject x) = 1"
| "added m (RegisterObjects xs) = length xs"
| "added m (UnregisterObject x) = 0"
| "added m Clear = 0"

fun removed :: "NaiveCollisionManager \<Rightarrow> registry_call \<Rightarrow> nat" where
  "removed m (RegisterObject x) = 0"
| "removed m (RegisterObjects xs) = 0"
| "removed m (UnregisterObject x) = count_list (objs m) x"
| "removed m Clear = length (objs m)"

fun total_added :: "NaiveCollisionManager \<Rightarrow> registry_call list \<Rightarrow> nat" where
  "total_added m [] = 0"
| "total_added m (c # cs) = added m c + total_added (registry_step m c) cs"

fun total_removed :: "NaiveCollisionManager \<Rightarrow> registry_call list \<Rightarrow> nat" where
  "total_removed m [] = 0"
| "total_removed m (c # cs) = removed m c + total_removed (registry_step m c) cs"

subsection \<open>The brute-force manager: queries\<close>

text \<open>
  A callback receives the two object pointers and the caller's data \<^verbatim>\<open>cdata\<close>, which it
  may change; it returns the stop flag and the new data. A distance callback also receives the
  running minimum by reference and returns its new value. Callbacks are taken not to touch
  the registries or the cached bounds while a query runs. The queries are \<^verbatim>\<open>void\<close>: the
  model returns the caller's data as the callbacks have left it and, for the distance queries,
  the local variable \<^verbatim>\<open>min_dist\<close> at the moment of return (\<open>None\<close> when the query
  returns before \<^verbatim>\<open>min_dist\<close> is declared). The overloads of \<^verbatim>\<open>collide\<close> and
  \<^verbatim>\<open>distance\<close> are told apart by a suffix: \<open>_obj\<close> for the query of one object,
  \<open>_self\<close> for the query of the registry against itself, \<open>_mgr\<close> for the query against
  another manager.
\<close>

type_synonym 'c CollisionCallBack = "nat \<Rightarrow> nat \<Rightarrow> 'c \<Rightarrow> bool \<times> 'c"

type_synonym 'c DistanceCallBack = "nat \<Rightarrow> nat \<Rightarrow> 'c \<Rightarrow> real \<Rightarrow> bool \<times> 'c \<times> real"

text \<open>\<^verbatim>\<open>std::numeric_limits<S>::max()\<close> for \<^verbatim>\<open>S = double\<close>.\<close>

definition numeric_limits_max :: real where
  "numeric_limits_max = (2 - 1 / 2 ^ 52) * 2 ^ 1023"

fun collide_obj_loop :: "'c CollisionCallBack \<Rightarrow> nat \<Rightarrow> nat list \<Rightarrow> 'c \<Rightarrow> 'c" where
  "collide_obj_loop callback obj [] cdata = cdata"
| "collide_obj_loop callback obj (obj2 # rest) cdata =
     (case callback obj obj2 cdata of
        (stop, cdata') \<Rightarrow> if stop then cdata' else collide_obj_loop callback obj rest cdata')"

definition collide_obj :: "World \<Rightarrow> nat \<Rightarrow> nat \<Rightarrow> 'c \<Rightarrow> 'c CollisionCallBack \<Rightarrow> 'c" where
  "collide_obj W this obj cdata callback =
     (if size_mgr (managers W this) = 0 then cdata
      else collide_obj_loop callback obj (objs (managers W this)) cdata)"



text \<open>
  The inner loop of the pairwise collide queries: \<open>obj1\<close> against the objects from the second
  cursor on. The flag tells whether the callback asked to stop, which returns from the query.
\<close>

fun collide_inner :: "World \<Rightarrow> 'c CollisionCallBack \<Rightarrow> nat \<Rightarrow> nat list \<Rightarrow> 'c \<Rightarrow> bool \<times> 'c" where
  "collide_inner W callback obj1 [] cdata = (False, cdata)"
| "collide_inner W callback obj1 (obj2 # rest) cdata =
     (if overlap (getAABB W obj1) (getAABB W obj2)
      then (case callback obj1 obj2 cdata of
              (stop, cdata') \<Rightarrow>
                if stop then (True, cdata') else collide_inner W callback obj1 rest cdata')
      else collide_inner W callback obj1 rest cdata)"

fun collide_self_loop :: "World \<Rightarrow> 'c CollisionCallBack \<Rightarrow> nat list \<Rightarrow> 'c \<Rightarrow> 'c" where
  "collide_self_loop W callback [] cdata = cdata"
| "collide_self_loop W callback (obj1 # rest) cdata =
     (case collide_inner W callback obj1 rest cdata of
        (stop, cdata') \<Rightarrow> if stop then cdata' else collide_self_loop W callback rest cdata')"

definition collide_self :: "World \<Rightarrow> nat \<Rightarrow> 'c \<Rightarrow> 'c CollisionCallBack \<Rightarrow> 'c" where
  "collide_self W this cdata callback =
     (if size_mgr (managers W this) = 0 then cdata
      else collide_self_loop W callback (objs (managers W this)) cdata)"

fun distance_inner :: "World \<Rightarrow> 'c DistanceCallBack \<Rightarrow> nat \<Rightarrow> nat list \<Rightarrow> 'c \<Rightarrow> real \<Rightarrow> bool \<times> 'c \<times> real" where
  "distance_inner W callback obj1 [] cdata min_dist = (False, cdata, min_dist)"
| "distance_inner W callback obj1 (obj2 # rest) cdata min_dist =
     (if distance (getAABB W obj1) (getAABB W obj2) < min_dist
      then (case callback obj1 obj2 cdata min_dist of
              (stop, cdata', min_dist') \<Rightarrow>
                if stop then (True, cdata', min_dist')
                else distance_inner W callback obj1 rest cdata' min_dist')
      else distance_inner W callback obj1 rest cdata min_dist)"

fun distance_self_loop :: "World \<Rightarrow> 'c DistanceCallBack \<Rightarrow> nat list \<Rightarrow> 'c \<Rightarrow> real \<Rightarrow> 'c \<times> real" where
  "distance_self_loop W callback [] cdata min_dist = (cdata, min_dist)"
| "distance_self_loop W callback (obj1 # rest) cdata min_dist =
     (case distance_inner W callback obj1 rest cdata min_dist of
        (stop, cdata', min_dist') \<Rightarrow>
          if stop then (cdata', min_dist')
          else distance_self_loop W callback rest cdata' min_dist')"

definition distance_self :: "World \<Rightarrow> nat \<Rightarrow> 'c \<Rightarrow> 'c DistanceCallBack \<Rightarrow> 'c \<times> real option" where
  "distance_self W this cdata callback =
     (if size_mgr (managers W this) = 0 then (cdata, None)
      else (case distance_self_loop W callback (objs (managers W this)) cdata numeric_limits_max of
              (cdata', min_dist) \<Rightarrow> (cdata', Some min_dist)))"

text \<open>
  The cross-manager queries; \<open>this\<close> and \<open>other_manager\<close> are manager addresses, compared
  as the pointers are.
\<close>

fun collide_mgr_loop :: "World \<Rightarrow> 'c CollisionCallBack \<Rightarrow> nat list \<Rightarrow> nat list \<Rightarrow> 'c \<Rightarrow> 'c" where
  "collide_mgr_loop W callback [] others cdata = cdata"
| "collide_mgr_loop W callback (obj1 # rest) others cdata =
     (case collide_inner W callback obj1 others cdata of
        (stop, cdata') \<Rightarrow> if stop then cdata' else collide_mgr_loop W callback rest others cdata')"

definition collide_mgr :: "World \<Rightarrow> nat \<Rightarrow> nat \<Rightarrow> 'c \<Rightarrow> 'c CollisionCallBack \<Rightarrow> 'c" where
  "collide_mgr W this other_manager cdata callback =
     (if size_mgr (managers W this) = 0 \<or> size_mgr (managers W other_manager) = 0 then cdata
      else if this = other_manager then collide_self W this cdata callback
      else collide_mgr_loop W callback (objs (managers W this)) (objs (managers W other_manager)) cdata)"

fun distance_mgr_loop :: "World \<Rightarrow> 'c DistanceCallBack \<Rightarrow> nat list \<Rightarrow> nat list \<Rightarrow> 'c \<Rightarrow> real \<Rightarrow> 'c \<times> real" where
  "distance_mgr_loop W callback [] others cdata min_dist = (cdata, min_dist)"
| "distance_mgr_loop W callback (obj1 # rest) others cdata min_dist =
     (case distance_inner W callback obj1 others cdata min_dist of
        (stop, cdata', min_dist') \<Rightarrow>
          if stop then (cdata', min_dist')
          else distance_mgr_loop W callback rest others cdata' min_dist')"

definition distance_mgr :: "World \<Rightarrow> nat \<Rightarrow> nat \<Rightarrow> 'c \<Rightarrow> 'c DistanceCallBack \<Rightarrow> 'c \<times> real option" where
  "distance_mgr W this other_manager cdata callback =
     (if size_mgr (managers W this) = 0 \<or> size_mgr (managers W other_manager) = 0 then (cdata, None)
      else if this = other_manager then distance_self W this cdata callback
      else (case distance_mgr_loop W callback (objs (managers W this)) (objs (managers W other_manager))
                   cdata numeric_limits_max of
              (cdata', min_dist) \<Rightarrow> (cdata', Some min_dist)))"

subsection \<open>Observing a query\<close>

text \<open>
  Which pairs a query hands to the callback is observed through the callback itself: the
  wrapped callback behaves as the given one and appends each pair it is invoked on to a log
  kept beside the caller's data.
\<close>

definition logged :: "'c CollisionCallBack \<Rightarrow> ('c \<times> (nat \<times> nat) list) CollisionCallBack" where
  "logged callback a b s =
     (case callback a b (fst s) of (stop, cdata') \<Rightarrow> (stop, (cdata', snd s @ [(a, b)])))"

definition logged_dist :: "'c DistanceCallBack \<Rightarrow> ('c \<times> (nat \<times> nat) list) DistanceCallBack" where
  "logged_dist callback a b s min_dist =
     (case callback a b (fst s) min_dist of
        (stop, cdata', min_dist') \<Rightarrow> (stop, (cdata', snd s @ [(a, b)]), min_dist'))"

text \<open>
  The protocol in the spec's words: candidate pairs are offered to the callback one after the
  other, and the query stops the moment an invocation returns true. \<open>offer\<close> gives the stop
  flag and the data, \<open>invoked\<close> the pairs the callback is invoked on. For the distance
  queries a pair is offered only while its bound distance is below the running minimum.
\<close>

fun offer :: "'c CollisionCallBack \<Rightarrow> (nat \<times> nat) list \<Rightarrow> 'c \<Rightarrow> bool \<times> 'c" where
  "offer callback [] cdata = (False, cdata)"
| "offer callback (p # ps) cdata =
     (case callback (fst p) (snd p) cdata of
        (stop, cdata') \<Rightarrow> if stop then (True, cdata') else offer callback ps cdata')"

fun invoked :: "'c CollisionCallBack \<Rightarrow> (nat \<times> nat) list \<Rightarrow> 'c \<Rightarrow> (nat \<times> nat) list" where
  "invoked callback [] cdata = []"
| "invoked callback (p # ps) cdata =
     p # (case callback (fst p) (snd p) cdata of
            (stop, cdata') \<Rightarrow> if stop then [] else invoked callback ps cdata')"

definition pair_overlap :: "World \<Rightarrow> nat \<times> nat \<Rightarrow> bool" where
  "pair_overlap W p \<longleftrightarrow> overlap (getAABB W (fst p)) (getAABB W (snd p))"

definition pair_distance :: "World \<Rightarrow> nat \<times> nat \<Rightarrow> real" where
  "pair_distance W p = distance (getAABB W (fst p)) (getAABB W (snd p))"

fun offer_dist :: "World \<Rightarrow> 'c DistanceCallBack \<Rightarrow> (nat \<times> nat) list \<Rightarrow> 'c \<Rightarrow> real \<Rightarrow> bool \<times> 'c \<times> real" where
  "offer_dist W callback [] cdata min_dist = (False, cdata, min_dist)"
| "offer_dist W callback (p # ps) cdata min_dist =
     (if pair_distance W p < min_dist
      then (case callback (fst p) (snd p) cdata min_dist of
              (stop, cdata', min_dist') \<Rightarrow>
                if stop then (True, cdata', min_dist') else offer_dist W callback ps cdata' min_dist')
      else offer_dist W callback ps cdata min_dist)"

fun invoked_dist :: "World \<Rightarrow> 'c DistanceCallBack \<Rightarrow> (nat \<times> nat) list \<Rightarrow> 'c \<Rightarrow> real \<Rightarrow> (nat \<times> nat) list" where
  "invoked_dist W callback [] cdata min_dist = []"
| "invoked_dist W callback (p # ps) cdata min_dist =
     (if pair_distance W p < min_dist
      then p # (case callback (fst p) (snd p) cdata min_dist of
                  (stop, cdata', min_dist') \<Rightarrow>
                    if stop then [] else invoked_dist W callback ps cdata' min_dist')
      else invoked_dist W callback ps cdata min_dist)"

text \<open>
  The strict upper triangle of the \<open>n \<times> n\<close> matrix of registry positions, row by row, and
  the pairs of registry entries at these positions.
\<close>

definition triangle :: "nat \<Rightarrow> (nat \<times> nat) list" where
  "triangle n = concat (map (\<lambda>i. map (Pair i) [Suc i ..< n]) [0 ..< n])"

definition upper_triangle :: "'a list \<Rightarrow> ('a \<times> 'a) list" where
  "upper_triangle xs = map (\<lambda>p. (xs ! fst p, xs ! snd p)) (triangle (length xs))"

text \<open>The pairs in the order the two cursors of the self queries reach them.\<close>

fun cursor_pairs :: "'a list \<Rightarrow> ('a \<times> 'a) list" where
  "cursor_pairs [] = []"
| "cursor_pairs (x # xs) = map (Pair x) xs @ cursor_pairs xs"

definition unordered :: "'a \<times> 'a \<Rightarrow> 'a multiset" where
  "unordered p = {#fst p, snd p#}"

subsection \<open>Sample data\<close>

text \<open>
  A unit sphere about the origin with its local box \<open>[-1,1]\<^sup>3\<close>; a world in which the object
  at address \<open>p\<close> has this geometry, is translated by \<open>3p/4\<close> along the first axis and caches
  the box of the sphere at that place; manager \<open>0\<close> holds the objects \<open>0\<close>, \<open>2\<close>, \<open>4\<close>,
  manager \<open>1\<close> is empty, and manager \<open>k\<close> for larger \<open>k\<close> holds the object \<open>k\<close>
  alone.
\<close>

definition box_at :: "real \<Rightarrow> AABB" where
  "box_at c = \<lparr>aabb_min = Vec3f (c - 1) (- 1) (- 1), aabb_max = Vec3f (c + 1) 1 1\<rparr>"

definition unit_sphere :: CollisionGeometry where
  "unit_sphere = \<lparr>aabb_center = Vec3f 0 0 0, aabb_radius = 1, aabb_local = box_at 0,
     user_data = 0, cost_density = 1, threshold_occupied = 1, threshold_free = 0\<rparr>"

definition sample_world :: World where
  "sample_world =
     \<lparr>geoms = (\<lambda>_. unit_sphere),
      objects = (\<lambda>p. \<lparr>cgeom = 0,
                       t = \<lparr>rotation = Matrix3f_identity, translation = Vec3f (3 * real p / 4) 0 0\<rparr>,
                       aabb = box_at (3 * real p / 4), obj_user_data = 0\<rparr>),
      managers = (\<lambda>k. if k = 0 then \<lparr>objs = [0, 2, 4]\<rparr> else if k = 1 then \<lparr>objs = []\<rparr>
                       else \<lparr>objs = [k]\<rparr>)\<rparr>"

text \<open>A quarter turn about the third axis.\<close>

definition quarter_turn :: Matrix3f where
  "quarter_turn = Matrix3f (Vec3f 0 (- 1) 0) (Vec3f 1 0 0) (Vec3f 0 0 1)"

text \<open>
  An implementation of \<^verbatim>\<open>computeLocalAABB\<close> that counts its invocations in
  \<^verbatim>\<open>user_data\<close>, as a test double would.
\<close>

definition counting_computeLocalAABB :: "CollisionGeometry \<Rightarrow> CollisionGeometry" where
  "counting_computeLocalAABB g = g\<lparr>user_data := Suc (user_data g)\<rparr>"

text \<open>
  An implementation of \<^verbatim>\<open>computeLocalAABB\<close> for a sphere of radius \<open>2\<close> about the
  origin.
\<close>

definition wide_computeLocalAABB :: "CollisionGeometry \<Rightarrow> CollisionGeometry" where
  "wide_computeLocalAABB g =
     g\<lparr>aabb_center := Vec3f 0 0 0, aabb_radius := 2,
       aabb_local := \<lparr>aabb_min = Vec3f (- 2) (- 2) (- 2), aabb_max = Vec3f 2 2 2\<rparr>\<rparr>"

text \<open>
  Callbacks: one that never stops and leaves the running minimum alone, one that never stops
  and lowers the running minimum to the bound distance of the pair it is given, and a
  first-hit collision callback that stops at once.
\<close>

definition passive_cb :: "unit DistanceCallBack" where
  "passive_cb a b cdata min_dist = (False, cdata, min_dist)"

definition tightening :: "World \<Rightarrow> unit DistanceCallBack" where
  "tightening W a b cdata min_dist = (False, cdata, pair_distance W (a, b))"

definition keep_going :: "unit CollisionCallBack" where
  "keep_going a b cdata = (False, cdata)"

definition first_hit :: "unit CollisionCallBack" where
  "first_hit a b cdata = (True, cdata)"




section \<open>Properties\<close>

subsection \<open>The loops as offers of candidate pairs\<close>

lemma offer_append:
  "offer cb (ps @ qs) c = (case offer cb ps c of (stop, c') \<Rightarrow> if stop then (True, c') else offer cb qs c')"
  by (induction ps arbitrary: c) (auto split: prod.splits)

lemma invoked_append:
  "invoked cb (ps @ qs) c = invoked cb ps c @ (case offer cb ps c of (stop, c') \<Rightarrow> if stop then [] else invoked cb qs c')"
  by (induction ps arbitrary: c) (auto split: prod.splits)

lemma collide_obj_loop_offer:
  "collide_obj_loop cb obj xs c = snd (offer cb (map (Pair obj) xs) c)"
  by (induction xs arbitrary: c) (auto split: prod.splits)

lemma collide_inner_offer:
  "collide_inner W cb obj1 xs c = offer cb (filter (pair_overlap W) (map (Pair obj1) xs)) c"
  by (induction xs arbitrary: c) (auto simp: pair_overlap_def split: prod.splits)

lemma collide_self_loop_offer:
  "collide_self_loop W cb xs c = snd (offer cb (filter (pair_overlap W) (cursor_pairs xs)) c)"
  by (induction xs arbitrary: c) (auto simp: collide_inner_offer offer_append split: prod.splits)

lemma collide_mgr_loop_offer:
  "collide_mgr_loop W cb xs ys c = snd (offer cb (filter (pair_overlap W) (List.product xs ys)) c)"
  by (induction xs arbitrary: c) (auto simp: collide_inner_offer offer_append split: prod.splits)

lemma offer_logged:
  "offer (logged cb) ps (c, l) = (case offer cb ps c of (stop, c') \<Rightarrow> (stop, (c', l @ invoked cb ps c)))"
  by (induction ps arbitrary: c l) (auto simp: logged_def split: prod.splits)

lemma invoked_subset: "set (invoked cb ps c) \<subseteq> set ps"
  by (induction ps arbitrary: c) (auto split: prod.splits if_splits)

lemma offer_dist_append:
  "offer_dist W cb (ps @ qs) c md =
     (case offer_dist W cb ps c md of (stop, c', md') \<Rightarrow> if stop then (True, c', md') else offer_dist W cb qs c' md')"
  by (induction ps arbitrary: c md) (auto split: prod.splits)



lemma distance_inner_offer:
  "distance_inner W cb obj1 xs c md = offer_dist W cb (map (Pair obj1) xs) c md"
  by (induction xs arbitrary: c md) (auto simp: pair_distance_def split: prod.splits)

lemma distance_self_loop_offer:
  "distance_self_loop W cb xs c md = snd (offer_dist W cb (cursor_pairs xs) c md)"
  by (induction xs arbitrary: c md) (auto simp: distance_inner_offer offer_dist_append split: prod.splits)

lemma distance_mgr_loop_offer:
  "distance_mgr_loop W cb xs ys c md = snd (offer_dist W cb (List.product xs ys) c md)"
  by (induction xs arbitrary: c md) (auto simp: distance_inner_offer offer_dist_append split: prod.splits)

lemma offer_dist_logged:
  "offer_dist W (logged_dist cb) ps (c, l) md =
     (case offer_dist W cb ps c md of (stop, c', md') \<Rightarrow> (stop, (c', l @ invoked_dist W cb ps c md), md'))"
  by (induction ps arbitrary: c l md) (auto simp: logged_dist_def split: prod.splits)

subsection \<open>The upper triangle\<close>

lemma triangle_Suc:
  "triangle (Suc n) = map (Pair 0) [Suc 0 ..< Suc n] @ map (\<lambda>p. (Suc (fst p), Suc (snd p))) (triangle n)"
proof -
  have rows: "[0 ..< Suc n] = 0 # map Suc [0 ..< n]"
    by (metis map_Suc_upt upt_conv_Cons zero_less_Suc)
  have row: "map (Pair (Suc i)) [Suc (Suc i) ..< Suc n] =
      map (\<lambda>p. (Suc (fst p), Suc (snd p))) (map (Pair i) [Suc i ..< n])" for i
  proof -
    have "[Suc (Suc i) ..< Suc n] = map Suc [Suc i ..< n]"
      by (rule map_Suc_upt[symmetric])
    then show ?thesis by (simp only: map_map comp_def fst_conv snd_conv)
  qed
  have "triangle (Suc n) = map (Pair 0) [Suc 0 ..< Suc n] @
      concat (map (\<lambda>i. map (Pair (Suc i)) [Suc (Suc i) ..< Suc n]) [0 ..< n])"
    unfolding triangle_def rows by (simp only: list.map concat.simps map_map comp_def)
  also have "concat (map (\<lambda>i. map (Pair (Suc i)) [Suc (Suc i) ..< Suc n]) [0 ..< n]) =
      map (\<lambda>p. (Suc (fst p), Suc (snd p))) (triangle n)"
    unfolding triangle_def row by (simp only: map_concat map_map comp_def)
  finally show ?thesis .
qed

lemma cursor_pairs_upper_triangle: "cursor_pairs xs = upper_triangle xs"
proof (induction xs)
  case Nil
  show ?case by (simp add: upper_triangle_def triangle_def)
next
  case (Cons x xs)
  have "[Suc 0 ..< Suc (length xs)] = map Suc [0 ..< length xs]"
    by (rule map_Suc_upt[symmetric])
  then have "map (\<lambda>j. (x, (x # xs) ! j)) [Suc 0 ..< Suc (length xs)] = map (\<lambda>j. (x, xs ! j)) [0 ..< length xs]"
    by (simp only: map_map comp_def nth_Cons_Suc)
  also have "\<dots> = map (Pair x) (map (\<lambda>j. xs ! j) [0 ..< length xs])"
    by (simp only: map_map comp_def)
  also have "\<dots> = map (Pair x) xs"
    by (simp only: map_nth)
  finally have first: "map (\<lambda>j. (x, (x # xs) ! j)) [Suc 0 ..< Suc (length xs)] = map (Pair x) xs" .
  have "upper_triangle (x # xs) =
     map (\<lambda>j. (x, (x # xs) ! j)) [Suc 0 ..< Suc (length xs)] @ upper_triangle xs"
    unfolding upper_triangle_def length_Cons triangle_Suc
    by (simp only: map_append map_map comp_def fst_conv snd_conv nth_Cons_0 nth_Cons_Suc)
  then show ?case using Cons.IH first by simp
qed

lemma set_triangle: "set (triangle n) = {(i, j). i < j \<and> j < n}"
  unfolding triangle_def by (auto simp: image_iff)

lemma distinct_triangle: "distinct (triangle n)"
proof (induction n)
  case 0 show ?case by (simp add: triangle_def)
next
  case (Suc n)
  have "inj_on (\<lambda>p::nat \<times> nat. (Suc (fst p), Suc (snd p))) (set (triangle n))"
    by (auto simp: inj_on_def prod_eq_iff)
  then have d2: "distinct (map (\<lambda>p. (Suc (fst p), Suc (snd p))) (triangle n))"
    using Suc.IH by (simp add: distinct_map)
  have d1: "distinct (map (Pair (0::nat)) [Suc 0 ..< Suc n])"
    by (simp only: distinct_map distinct_upt) (simp add: inj_on_def)
  have "set (map (Pair (0::nat)) [Suc 0 ..< Suc n]) \<inter>
        set (map (\<lambda>p. (Suc (fst p), Suc (snd p))) (triangle n)) = {}"
    by (auto simp del: upt_Suc)
  with d1 d2 show ?case
    unfolding triangle_Suc by (simp only: distinct_append)
qed

lemma unordered_cursor_pairs_Cons:
  "image_mset unordered (mset (cursor_pairs (x # xs))) =
     image_mset (\<lambda>y. {#x, y#}) (mset xs) + image_mset unordered (mset (cursor_pairs xs))"
  by (simp add: unordered_def multiset.map_comp comp_def)

lemma unordered_cursor_pairs_move:
  "image_mset unordered (mset (cursor_pairs (xs @ y # ys))) =
   image_mset unordered (mset (cursor_pairs (y # xs @ ys)))"
proof (induction xs)
  case Nil
  show ?case by simp
next
  case (Cons x xs)
  have swap: "{#x, y#} = {#y, x#}" by (simp add: add_mset_commute)
  have "image_mset unordered (mset (cursor_pairs ((x # xs) @ y # ys))) =
      image_mset (\<lambda>z. {#x, z#}) (mset (xs @ y # ys)) + image_mset unordered (mset (cursor_pairs (y # xs @ ys)))"
    using Cons.IH by (simp only: append_Cons unordered_cursor_pairs_Cons)
  also have "\<dots> = image_mset (\<lambda>z. {#x, z#}) (mset (xs @ y # ys)) +
      (image_mset (\<lambda>z. {#y, z#}) (mset (xs @ ys)) + image_mset unordered (mset (cursor_pairs (xs @ ys))))"
    by (simp only: unordered_cursor_pairs_Cons)
  also have "\<dots> = image_mset (\<lambda>z. {#y, z#}) (mset (x # xs @ ys)) +
      (image_mset (\<lambda>z. {#x, z#}) (mset (xs @ ys)) + image_mset unordered (mset (cursor_pairs (xs @ ys))))"
    by (simp add: swap)
  also have "\<dots> = image_mset (\<lambda>z. {#y, z#}) (mset (x # xs @ ys)) +
      image_mset unordered (mset (cursor_pairs (x # xs @ ys)))"
    by (simp only: unordered_cursor_pairs_Cons)
  also have "\<dots> = image_mset unordered (mset (cursor_pairs (y # (x # xs) @ ys)))"
    by (simp only: append_Cons unordered_cursor_pairs_Cons)
  finally show ?case .
qed

lemma unordered_cursor_pairs_perm:
  "mset xs = mset ys \<Longrightarrow>
   image_mset unordered (mset (cursor_pairs xs)) = image_mset unordered (mset (cursor_pairs ys))"
proof (induction xs arbitrary: ys)
  case Nil
  then show ?case by simp
next
  case (Cons x xs)
  from Cons.prems have "x \<in> set ys"
    by (metis list.set_intros(1) set_mset_mset)
  then obtain ys1 ys2 where ys: "ys = ys1 @ x # ys2"
    by (auto dest: split_list)
  with Cons.prems have rest: "mset xs = mset (ys1 @ ys2)" by simp
  have "image_mset unordered (mset (cursor_pairs ys)) =
      image_mset unordered (mset (cursor_pairs (x # ys1 @ ys2)))"
    unfolding ys by (rule unordered_cursor_pairs_move)
  also have "\<dots> = image_mset (\<lambda>z. {#x, z#}) (mset (ys1 @ ys2)) +
      image_mset unordered (mset (cursor_pairs (ys1 @ ys2)))"
    by (rule unordered_cursor_pairs_Cons)
  also have "\<dots> = image_mset (\<lambda>z. {#x, z#}) (mset xs) + image_mset unordered (mset (cursor_pairs xs))"
    using Cons.IH[OF rest] rest by simp
  also have "\<dots> = image_mset unordered (mset (cursor_pairs (x # xs)))"
    by (rule unordered_cursor_pairs_Cons[symmetric])
  finally show ?case by simp
qed

lemma invoked_no_stop: "\<not> fst (offer cb ps c) \<Longrightarrow> invoked cb ps c = ps"
  by (induction ps arbitrary: c) (auto split: prod.splits if_splits)

lemma collide_self_offer:
  "collide_self W m c cb = snd (offer cb (filter (pair_overlap W) (upper_triangle (objs (managers W m)))) c)"
  by (simp add: collide_self_def size_mgr_def collide_self_loop_offer cursor_pairs_upper_triangle[symmetric])

lemma collide_self_logged:
  "collide_self W m (c, []) (logged cb) =
     (collide_self W m c cb, invoked cb (filter (pair_overlap W) (upper_triangle (objs (managers W m)))) c)"
  unfolding collide_self_offer by (simp add: offer_logged split: prod.splits)

lemma collide_mgr_logged:
  "snd (collide_mgr W m m' (c, []) (logged cb)) =
     (if size_mgr (managers W m) = 0 \<or> size_mgr (managers W m') = 0 then []
      else if m = m' then invoked cb (filter (pair_overlap W) (upper_triangle (objs (managers W m)))) c
      else invoked cb (filter (pair_overlap W) (List.product (objs (managers W m)) (objs (managers W m')))) c)"
  by (simp add: collide_mgr_def collide_self_logged collide_mgr_loop_offer offer_logged split: prod.splits)

lemma collide_obj_logged:
  "collide_obj W m obj (c, []) (logged cb) =
     (collide_obj W m obj c cb, invoked cb (map (Pair obj) (objs (managers W m))) c)"
  by (simp add: collide_obj_def size_mgr_def collide_obj_loop_offer offer_logged split: prod.splits)


subsection \<open>The distance loops\<close>

lemma offer_dist_passive:
  assumes "\<forall>a b c md. fst (cb a b c md) = False \<and> snd (snd (cb a b c md)) = md"
  shows "fst (offer_dist W cb ps c md) = False \<and> snd (snd (offer_dist W cb ps c md)) = md"
proof (induction ps arbitrary: c md)
  case Nil
  show ?case by simp
next
  case (Cons p ps)
  obtain s c' md' where r: "cb (fst p) (snd p) c md = (s, c', md')" by (cases "cb (fst p) (snd p) c md")
  with assms have "s = False" "md' = md" by (metis fst_conv, metis snd_conv)
  with r Cons.IH show ?case by simp
qed

lemma invoked_dist_passive:
  assumes "\<forall>a b c md. fst (cb a b c md) = False \<and> snd (snd (cb a b c md)) = md"
  shows "invoked_dist W cb ps c md = filter (\<lambda>p. pair_distance W p < md) ps"
proof (induction ps arbitrary: c)
  case Nil
  show ?case by simp
next
  case (Cons p ps)
  obtain s c' md' where r: "cb (fst p) (snd p) c md = (s, c', md')" by (cases "cb (fst p) (snd p) c md")
  with assms have "s = False" "md' = md" by (metis fst_conv, metis snd_conv)
  with r Cons.IH show ?case by simp
qed

lemma Min_insert_min:
  fixes a b :: real
  assumes "finite S"
  shows "Min (insert a (insert b S)) = Min (insert (min a b) S)"
proof (cases "S = {}")
  case True
  then show ?thesis by simp
next
  case False
  with assms show ?thesis by (simp add: min.assoc)
qed

lemma offer_dist_tightening:
  assumes "\<forall>a b c md. fst (cb a b c md) = False \<and> snd (snd (cb a b c md)) = pair_distance W (a, b)"
  shows "snd (snd (offer_dist W cb ps c md)) = Min (insert md (pair_distance W ` set ps))"
proof (induction ps arbitrary: c md)
  case Nil
  show ?case by simp
next
  case (Cons p ps)
  obtain s c' md' where r: "cb (fst p) (snd p) c md = (s, c', md')" by (cases "cb (fst p) (snd p) c md")
  with assms have s: "s = False" and md': "md' = pair_distance W p"
    by (metis fst_conv, metis prod.collapse snd_conv)
  have "\<exists>c''. snd (snd (offer_dist W cb (p # ps) c md)) =
      snd (snd (offer_dist W cb ps c'' (min md (pair_distance W p))))"
  proof (cases "pair_distance W p < md")
    case True
    then have "min md (pair_distance W p) = md'" using md' by (simp add: min_def)
    with True r s show ?thesis by auto
  next
    case False
    then have "min md (pair_distance W p) = md" by (simp add: min_def)
    with False show ?thesis by auto
  qed
  then obtain c'' where "snd (snd (offer_dist W cb (p # ps) c md)) =
      snd (snd (offer_dist W cb ps c'' (min md (pair_distance W p))))" ..
  also have "\<dots> = Min (insert (min md (pair_distance W p)) (pair_distance W ` set ps))"
    by (rule Cons.IH)
  also have "\<dots> = Min (insert md (insert (pair_distance W p) (pair_distance W ` set ps)))"
    by (rule Min_insert_min[symmetric]) simp
  finally show ?case by simp
qed

lemma distance_self_offer:
  "distance_self W m c cb =
     (if objs (managers W m) = [] then (c, None)
      else (fst (snd (offer_dist W cb (upper_triangle (objs (managers W m))) c numeric_limits_max)),
            Some (snd (snd (offer_dist W cb (upper_triangle (objs (managers W m))) c numeric_limits_max)))))"
  by (simp add: distance_self_def size_mgr_def distance_self_loop_offer
      cursor_pairs_upper_triangle[symmetric] split: prod.splits)



lemma distance_self_logged:
  "distance_self W m (c, []) (logged_dist cb) =
     ((fst (distance_self W m c cb),
       invoked_dist W cb (upper_triangle (objs (managers W m))) c numeric_limits_max),
      snd (distance_self W m c cb))"
  by (simp add: distance_self_offer offer_dist_logged upper_triangle_def triangle_def
      split: prod.splits)

lemma upper_triangle_nonempty: "2 \<le> length xs \<Longrightarrow> upper_triangle xs \<noteq> []"
proof -
  assume "2 \<le> length xs"
  then obtain a b ys where "xs = a # b # ys"
    by (metis Suc_le_length_iff numeral_2_eq_2)
  then show ?thesis by (simp add: cursor_pairs_upper_triangle[symmetric])
qed

lemma collide_mgr_overlap:
  "p \<in> set (snd (collide_mgr W m m' (c, []) (logged cb))) \<Longrightarrow> pair_overlap W p"
proof -
  assume "p \<in> set (snd (collide_mgr W m m' (c, []) (logged cb)))"
  then have "p \<in> set (filter (pair_overlap W) (upper_triangle (objs (managers W m)))) \<or>
      p \<in> set (filter (pair_overlap W) (List.product (objs (managers W m)) (objs (managers W m'))))"
    unfolding collide_mgr_logged using invoked_subset by (fastforce split: if_splits)
  then show ?thesis by auto
qed

subsection \<open>Facts about the bounds and the sample data\<close>

lemma numeric_limits_max_pos: "1 < numeric_limits_max"
  by (simp add: numeric_limits_max_def)

lemma distance_box_at:
  "distance (box_at a) (box_at b) =
     (if a - 1 > b + 1 then a - b - 2 else if b - 1 > a + 1 then b - a - 2 else 0)"
  by (simp add: distance_def box_at_def axis_gap_def)


lemma sample_objs:
  "objs (managers sample_world 0) = [0, 2, 4]" "objs (managers sample_world 4) = [4]"
  by (simp_all add: sample_world_def)

lemma sample_pair_overlap:
  "pair_overlap sample_world (0, 0)" "pair_overlap sample_world (0, 2)"
  "\<not> pair_overlap sample_world (0, 4)" "pair_overlap sample_world (2, 4)"
  "pair_overlap sample_world (4, 4)"
  by (simp_all add: pair_overlap_def getAABB_def sample_world_def overlap_def box_at_def)

lemma sample_upper_triangle: "upper_triangle [0, 2, 4 :: nat] = [(0, 2), (0, 4), (2, 4)]"
  by (simp add: cursor_pairs_upper_triangle[symmetric])

lemma sample_candidates:
  "filter (pair_overlap sample_world) (upper_triangle [0, 2, 4]) = [(0, 2), (2, 4)]"
  by (simp add: sample_upper_triangle sample_pair_overlap)

lemma sample_pair_distance:
  "pair_distance sample_world (0, 2) = 0" "pair_distance sample_world (0, 4) = 1"
  "pair_distance sample_world (2, 4) = 0" "pair_distance sample_world (0, 0) = 0"
  by (simp_all add: pair_distance_def getAABB_def sample_world_def distance_box_at)

lemma sample_cross_candidates:
  "filter (pair_overlap sample_world) (List.product [0, 2, 4] [4]) = [(2, 4), (4, 4)]"
  by (simp add: sample_pair_overlap)

lemma sample_logs:
  "snd (collide_self sample_world 0 ((), []) (logged keep_going)) = [(0, 2), (2, 4)]"
  "snd (collide_mgr sample_world 0 4 ((), []) (logged keep_going)) = [(2, 4), (4, 4)]"
  "snd (collide_obj sample_world 0 0 ((), []) (logged keep_going)) = [(0, 0), (0, 2), (0, 4)]"
  "\<not> fst (offer keep_going (map (Pair 0) (objs (managers sample_world 0))) ())"
  by (simp_all add: collide_self_logged collide_mgr_logged collide_obj_logged size_mgr_def
      sample_candidates sample_objs sample_cross_candidates sample_pair_overlap keep_going_def)

lemma sample_min_distance:
  "Min (pair_distance sample_world ` set (upper_triangle [0, 2, 4])) = 0"
  by (simp add: sample_upper_triangle sample_pair_distance)


subsection \<open>Registry bookkeeping\<close>

lemma length_removeAll_count: "length (removeAll x xs) + count_list xs x = length xs"
  by (induction xs) auto

lemma registry_step_balance:
  "length (objs (registry_step m c)) + removed m c = length (objs m) + added m c"
  by (cases c)
     (simp_all add: registerObject_def registerObjects_def unregisterObject_def clear_def
        length_removeAll_count)

lemma registry_run_balance:
  "length (objs (foldl registry_step m cs)) + total_removed m cs = length (objs m) + total_added m cs"
proof (induction cs arbitrary: m)
  case Nil
  show ?case by simp
next
  case (Cons c cs)
  from Cons.IH[of "registry_step m c"] registry_step_balance[of m c] show ?case by simp
qed

text \<open>
  C7. For every sequence of registerObject, registerObjects, unregisterObject and clear calls
  on a new manager, \<open>size()\<close> is the number of occurrences registered minus the number of
  occurrences removed. One registerObject appends one occurrence, also of an object that is
  registered already; unregisterObject removes every occurrence of its argument and nothing
  else.
\<close>

theorem size_is_net_registrations:
  "size_mgr (run_registry calls) + total_removed new_manager calls = total_added new_manager calls
   \<and> size_mgr (run_registry calls) = total_added new_manager calls - total_removed new_manager calls
   \<and> objs (registerObject m x) = objs m @ [x]
   \<and> size_mgr (registerObject m x) = Suc (size_mgr m)
   \<and> count_list (objs (registerObject m x)) x = Suc (count_list (objs m) x)
   \<and> objs (unregisterObject m x) = filter (\<lambda>y. y \<noteq> x) (objs m)
   \<and> count_list (objs (unregisterObject m x)) x = 0
   \<and> size_mgr (unregisterObject m x) = size_mgr m - count_list (objs m) x"
proof -
  have run: "size_mgr (run_registry calls) + total_removed new_manager calls = total_added new_manager calls"
    using registry_run_balance[of new_manager calls]
    by (simp add: size_mgr_def run_registry_def new_manager_def)
  have unreg: "size_mgr (unregisterObject m x) + count_list (objs m) x = size_mgr m"
    by (simp add: size_mgr_def unregisterObject_def length_removeAll_count)
  have "objs (unregisterObject m x) = filter (\<lambda>y. y \<noteq> x) (objs m)"
    by (simp add: unregisterObject_def removeAll_filter_not_eq) metis
  moreover have "count_list (objs (unregisterObject m x)) x = 0"
    by (simp add: unregisterObject_def count_list_0_iff)
  moreover have "count_list (objs (registerObject m x)) x = Suc (count_list (objs m) x)"
    by (simp add: registerObject_def)
  moreover have "size_mgr (run_registry calls) = total_added new_manager calls - total_removed new_manager calls"
    using run by linarith
  moreover have "size_mgr (unregisterObject m x) = size_mgr m - count_list (objs m) x"
    using unreg by linarith
  moreover have "objs (registerObject m x) = objs m @ [x]"
    by (simp add: registerObject_def)
  moreover have "size_mgr (registerObject m x) = Suc (size_mgr m)"
    by (simp add: registerObject_def size_mgr_def)
  ultimately show ?thesis using run by blast
qed

subsection \<open>The cached bound\<close>

lemma upd_pose_frame:
  "getAABB (upd_pose W this f) p = getAABB W p \<and> geoms (upd_pose W this f) = geoms W"
  by (simp add: upd_pose_def getAABB_def)

text \<open>
  C4. When the rotation of the pose of an object is the identity, \<open>computeAABB()\<close> sets the
  cached world bound to the local bound \<open>aabb_local\<close> of the geometry, unchanged, whatever
  the translation of the pose is; in particular it does so under the identity pose.
\<close>

theorem computeAABB_identity_rotation:
  "(rotation_isIdentity (t (objects W this)) \<longrightarrow>
      getAABB (computeAABB W this) this = aabb_local (geoms W (cgeom (objects W this))))
   \<and> (Transform3f_isIdentity (t (objects W this)) \<longrightarrow>
      getAABB (computeAABB W this) this = aabb_local (geoms W (cgeom (objects W this))))"
  by (simp add: computeAABB_def getAABB_def Transform3f_isIdentity_def Let_def)

theorem computeAABB_identity_rotation_witness:
  "rotation_isIdentity (t (objects sample_world 0))
   \<and> Transform3f_isIdentity (t (objects sample_world 0))
   \<and> getAABB (computeAABB sample_world 0) 0 = box_at 0
   \<and> rotation_isIdentity (t (objects sample_world 4))
   \<and> translation (t (objects sample_world 4)) = Vec3f 3 0 0
   \<and> getAABB (computeAABB sample_world 4) 4 = box_at 0"
  using computeAABB_identity_rotation[of sample_world 0]
    computeAABB_identity_rotation[of sample_world 4]
  by (simp add: sample_world_def rotation_isIdentity_def Transform3f_isIdentity_def unit_sphere_def)

text \<open>
  The other branch of \<^verbatim>\<open>computeAABB\<close>: when the rotation is not the identity, the
  cached bound is the cube of half side \<open>aabb_radius\<close> about the transformed centre, and it
  holds the image under the pose of every point within \<open>aabb_radius\<close> of \<open>aabb_center\<close>.
\<close>

lemma orthonormal_sqrLength:
  assumes "orthonormal m"
  shows "sqrLength (mat_vec m v) = sqrLength v"
proof -
  obtain a b c d e f g h i where m: "m = Matrix3f (Vec3f a b c) (Vec3f d e f) (Vec3f g h i)"
    by (metis Matrix3f.exhaust Vec3f.exhaust)
  obtain x y z where v: "v = Vec3f x y z" by (cases v)
  from assms have o: "a * a + d * d + g * g = 1" "b * b + e * e + h * h = 1" "c * c + f * f + i * i = 1"
    "a * b + d * e + g * h = 0" "a * c + d * f + g * i = 0" "b * c + e * f + h * i = 0"
    by (simp_all add: orthonormal_def m dot_def)
  have "sqrLength (mat_vec m v) =
      (a * a + d * d + g * g) * (x * x) + (b * b + e * e + h * h) * (y * y) + (c * c + f * f + i * i) * (z * z)
      + 2 * (a * b + d * e + g * h) * (x * y) + 2 * (a * c + d * f + g * i) * (x * z)
      + 2 * (b * c + e * f + h * i) * (y * z)"
    by (simp add: m v sqrLength_def mat_vec_def dot_def algebra_simps)
  also have "\<dots> = sqrLength v"
    by (simp only: o) (simp add: v sqrLength_def dot_def)
  finally show ?thesis .
qed

lemma component_bound:
  assumes "x * x + y * y + z * z \<le> r * r" "0 \<le> (r::real)"
  shows "\<bar>x\<bar> \<le> r" "\<bar>y\<bar> \<le> r" "\<bar>z\<bar> \<le> r"
proof -
  have "x * x \<le> r * r" "y * y \<le> r * r" "z * z \<le> r * r"
    using assms(1) zero_le_square[of x] zero_le_square[of y] zero_le_square[of z] by linarith+
  then show "\<bar>x\<bar> \<le> r" "\<bar>y\<bar> \<le> r" "\<bar>z\<bar> \<le> r"
    using assms(2) by (metis abs_le_square_iff abs_of_nonneg power2_eq_square)+
qed

lemma computeAABB_rotated_contains_sphere:
  assumes rot: "\<not> rotation_isIdentity (t (objects W this))"
    and ortho: "orthonormal (rotation (t (objects W this)))"
    and radius: "0 \<le> aabb_radius (geoms W (cgeom (objects W this)))"
    and inside: "sqrLength (vsub p (aabb_center (geoms W (cgeom (objects W this)))))
        \<le> aabb_radius (geoms W (cgeom (objects W this))) * aabb_radius (geoms W (cgeom (objects W this)))"
  shows "contain (getAABB (computeAABB W this) this) (transform (t (objects W this)) p)"
proof -
  define m where "m = rotation (t (objects W this))"
  define c where "c = aabb_center (geoms W (cgeom (objects W this)))"
  define r where "r = aabb_radius (geoms W (cgeom (objects W this)))"
  define d where "d = mat_vec m (vsub p c)"
  have "sqrLength d = sqrLength (vsub p c)"
    unfolding d_def using ortho by (simp add: orthonormal_sqrLength m_def)
  with inside have "vx d * vx d + vy d * vy d + vz d * vz d \<le> r * r"
    by (simp add: sqrLength_def dot_def c_def r_def)
  from component_bound[OF this] radius have b: "\<bar>vx d\<bar> \<le> r" "\<bar>vy d\<bar> \<le> r" "\<bar>vz d\<bar> \<le> r"
    by (simp_all add: r_def)
  have lin: "mat_vec m p = vadd (mat_vec m c) d"
    by (simp add: d_def mat_vec_def vadd_def vsub_def dot_def algebra_simps)
  have box: "getAABB (computeAABB W this) this =
      \<lparr>aabb_min = vsub (transform (t (objects W this)) c) (Vec3f r r r),
       aabb_max = vadd (transform (t (objects W this)) c) (Vec3f r r r)\<rparr>"
    using rot by (simp add: computeAABB_def getAABB_def Let_def c_def r_def)
  show ?thesis
    unfolding box using b
    by (simp add: contain_def transform_def m_def[symmetric] lin vadd_def vsub_def abs_le_iff)
qed

lemma computeAABB_rotated_example:
  "contain (getAABB (computeAABB (setRotation sample_world 4 quarter_turn) 4) 4)
     (transform (t (objects (setRotation sample_world 4 quarter_turn) 4)) (Vec3f 1 0 0))"
  by (rule computeAABB_rotated_contains_sphere)
     (simp_all add: setRotation_def upd_pose_def sample_world_def rotation_isIdentity_def
        quarter_turn_def Matrix3f_identity_def orthonormal_def dot_def unit_sphere_def
        sqrLength_def vsub_def)

text \<open>
  C1. The claim asks that after \<open>computeAABB()\<close> the cached world bound holds the image of
  the local bounding sphere under every pose that is not the identity, in particular under a
  pose with identity rotation and a translation. The code at such a pose: the object at
  address \<open>4\<close> of the sample world has identity rotation and translation \<open>(3,0,0)\<close>; the
  centre of its bounding sphere is carried to \<open>(3,0,0)\<close>, the bound \<open>computeAABB()\<close> caches
  is the local box \<open>[-1,1]\<^sup>3\<close>, and the carried centre is not in it.
\<close>

theorem computeAABB_translation_only_misses_sphere:
  "rotation_isIdentity (t (objects sample_world 4))
   \<and> \<not> Transform3f_isIdentity (t (objects sample_world 4))
   \<and> getAABB (computeAABB sample_world 4) 4 = box_at 0
   \<and> transform (t (objects sample_world 4)) (aabb_center (geoms sample_world (cgeom (objects sample_world 4)))) = Vec3f 3 0 0
   \<and> \<not> contain (getAABB (computeAABB sample_world 4) 4) (Vec3f 3 0 0)"
  by (simp add: sample_world_def rotation_isIdentity_def Transform3f_isIdentity_def computeAABB_def
      getAABB_def unit_sphere_def transform_def mat_vec_def Matrix3f_identity_def dot_def vadd_def
      contain_def box_at_def)

text \<open>
  C9. Each pose setter (setTranslation, setRotation, setQuatRotation, the three forms of
  setTransform, setIdentityTransform) changes the pose only: afterwards the cached world bound
  of every object, as \<open>getAABB()\<close> returns it, and the state of every geometry are what they
  were before the call.
\<close>

theorem pose_setters_keep_bound_and_geometry:
  "getAABB (setTranslation W this T) p = getAABB W p \<and> geoms (setTranslation W this T) = geoms W
   \<and> getAABB (setRotation W this R) p = getAABB W p \<and> geoms (setRotation W this R) = geoms W
   \<and> getAABB (setQuatRotation W this q) p = getAABB W p \<and> geoms (setQuatRotation W this q) = geoms W
   \<and> getAABB (setTransform_RT W this R T) p = getAABB W p \<and> geoms (setTransform_RT W this R T) = geoms W
   \<and> getAABB (setTransform_qT W this q T) p = getAABB W p \<and> geoms (setTransform_qT W this q T) = geoms W
   \<and> getAABB (setTransform W this tf) p = getAABB W p \<and> geoms (setTransform W this tf) = geoms W
   \<and> getAABB (setIdentityTransform W this) p = getAABB W p \<and> geoms (setIdentityTransform W this) = geoms W"
  by (simp add: setTranslation_def setRotation_def setQuatRotation_def setTransform_RT_def
      setTransform_qT_def setTransform_def setIdentityTransform_def upd_pose_frame)

lemma computeAABB_geoms: "geoms (computeAABB W this) = geoms W"
  by (simp add: computeAABB_def Let_def)

lemma constructor_geoms:
  "geoms (CollisionObject_tf cl W this g tf) = (geoms W)(g := cl (geoms W g))"
  by (simp add: CollisionObject_tf_def computeAABB_geoms Let_def)

lemma constructor_order:
  "CollisionObject_tf cl W this g tf =
     computeAABB (W\<lparr>objects := (objects W)(this := (objects W this)\<lparr>cgeom := g, t := tf\<rparr>),
                    geoms := (geoms W)(g := cl (geoms W g))\<rparr>) this"
  by (simp add: CollisionObject_tf_def Let_def)

lemma constructor_bound:
  "getAABB (CollisionObject_tf cl W this g tf) this =
     (if rotation_isIdentity tf then aabb_local (cl (geoms W g))
      else \<lparr>aabb_min = vsub (transform tf (aabb_center (cl (geoms W g))))
                 (Vec3f (aabb_radius (cl (geoms W g))) (aabb_radius (cl (geoms W g)))
                    (aabb_radius (cl (geoms W g)))),
             aabb_max = vadd (transform tf (aabb_center (cl (geoms W g))))
                 (Vec3f (aabb_radius (cl (geoms W g))) (aabb_radius (cl (geoms W g)))
                    (aabb_radius (cl (geoms W g))))\<rparr>)"
  by (simp add: constructor_order computeAABB_def getAABB_def Let_def)

text \<open>
  C8, as the code has it. Each constructor that takes a geometry invokes
  \<open>computeLocalAABB()\<close> on it once, whatever state the geometry is in, and then runs the
  initial \<open>computeAABB()\<close>: the geometry after the construction is the result of
  \<open>computeLocalAABB()\<close> on the geometry before it, the other geometries are unchanged, and
  the world after the construction is the result of \<open>computeAABB()\<close> on the world in which
  the geometry has been recomputed already, so that the bound the new object caches is taken
  from the recomputed geometry. Constructing a second object from the same geometry invokes
  \<open>computeLocalAABB()\<close> on it a second time.
\<close>

theorem constructor_always_computes_local_bound:
  "geoms (CollisionObject_tf cl W this g tf) = (geoms W)(g := cl (geoms W g))
   \<and> geoms (CollisionObject_geom cl W this g) = (geoms W)(g := cl (geoms W g))
   \<and> geoms (CollisionObject_RT cl W this g R T) = (geoms W)(g := cl (geoms W g))
   \<and> geoms (CollisionObject_geom cl (CollisionObject_geom cl W this g) this' g) g = cl (cl (geoms W g))
   \<and> CollisionObject_tf cl W this g tf =
       computeAABB (W\<lparr>objects := (objects W)(this := (objects W this)\<lparr>cgeom := g, t := tf\<rparr>),
                      geoms := (geoms W)(g := cl (geoms W g))\<rparr>) this
   \<and> CollisionObject_geom cl W this g =
       computeAABB (W\<lparr>objects := (objects W)(this :=
                        (objects W this)\<lparr>cgeom := g, t := Transform3f_identity\<rparr>),
                      geoms := (geoms W)(g := cl (geoms W g))\<rparr>) this
   \<and> CollisionObject_RT cl W this g R T =
       computeAABB (W\<lparr>objects := (objects W)(this :=
                        (objects W this)\<lparr>cgeom := g, t := \<lparr>rotation = R, translation = T\<rparr>\<rparr>),
                      geoms := (geoms W)(g := cl (geoms W g))\<rparr>) this
   \<and> getAABB (CollisionObject_tf cl W this g tf) this =
       (if rotation_isIdentity tf then aabb_local (cl (geoms W g))
        else \<lparr>aabb_min = vsub (transform tf (aabb_center (cl (geoms W g))))
                   (Vec3f (aabb_radius (cl (geoms W g))) (aabb_radius (cl (geoms W g)))
                      (aabb_radius (cl (geoms W g)))),
               aabb_max = vadd (transform tf (aabb_center (cl (geoms W g))))
                   (Vec3f (aabb_radius (cl (geoms W g))) (aabb_radius (cl (geoms W g)))
                      (aabb_radius (cl (geoms W g))))\<rparr>)
   \<and> getAABB (CollisionObject_geom cl W this g) this = aabb_local (cl (geoms W g))
   \<and> cgeom (objects (CollisionObject_tf cl W this g tf) this) = g
   \<and> t (objects (CollisionObject_tf cl W this g tf) this) = tf"
proof -
  have idr: "rotation_isIdentity Transform3f_identity"
    by (simp add: rotation_isIdentity_def Transform3f_identity_def)
  have "cgeom (objects (CollisionObject_tf cl W this g tf) this) = g"
    "t (objects (CollisionObject_tf cl W this g tf) this) = tf"
    by (simp_all add: constructor_order computeAABB_def Let_def)
  moreover have "getAABB (CollisionObject_geom cl W this g) this = aabb_local (cl (geoms W g))"
    unfolding CollisionObject_geom_def constructor_bound using idr by simp
  moreover have "CollisionObject_geom cl W this g =
       computeAABB (W\<lparr>objects := (objects W)(this :=
                        (objects W this)\<lparr>cgeom := g, t := Transform3f_identity\<rparr>),
                      geoms := (geoms W)(g := cl (geoms W g))\<rparr>) this"
    unfolding CollisionObject_geom_def by (rule constructor_order)
  moreover have "CollisionObject_RT cl W this g R T =
       computeAABB (W\<lparr>objects := (objects W)(this :=
                        (objects W this)\<lparr>cgeom := g, t := \<lparr>rotation = R, translation = T\<rparr>\<rparr>),
                      geoms := (geoms W)(g := cl (geoms W g))\<rparr>) this"
    unfolding CollisionObject_RT_def by (rule constructor_order)
  moreover have "geoms (CollisionObject_geom cl W this g) = (geoms W)(g := cl (geoms W g))"
    "geoms (CollisionObject_RT cl W this g R T) = (geoms W)(g := cl (geoms W g))"
    "geoms (CollisionObject_geom cl (CollisionObject_geom cl W this g) this' g) g = cl (cl (geoms W g))"
    by (simp_all add: CollisionObject_geom_def CollisionObject_RT_def constructor_geoms)
  ultimately show ?thesis
    using constructor_geoms[of cl W this g tf] constructor_order[of cl W this g tf]
      constructor_bound[of cl W this g tf]
    by blast
qed

text \<open>
  An instance: an object built at address \<open>10\<close> from geometry \<open>0\<close> of the sample world, whose
  local box is \<open>[-1,1]\<^sup>3\<close> beforehand, with an implementation of \<open>computeLocalAABB()\<close> that
  yields \<open>[-2,2]\<^sup>3\<close>, caches \<open>[-2,2]\<^sup>3\<close>.
\<close>

theorem constructor_always_computes_local_bound_witness:
  "aabb_local (geoms sample_world 0) = box_at 0
   \<and> aabb_local (geoms (CollisionObject_geom wide_computeLocalAABB sample_world 10 0) 0) =
       \<lparr>aabb_min = Vec3f (- 2) (- 2) (- 2), aabb_max = Vec3f 2 2 2\<rparr>
   \<and> getAABB (CollisionObject_geom wide_computeLocalAABB sample_world 10 0) 10 =
       \<lparr>aabb_min = Vec3f (- 2) (- 2) (- 2), aabb_max = Vec3f 2 2 2\<rparr>"
proof -
  note inst = constructor_always_computes_local_bound[of wide_computeLocalAABB sample_world 10 0
      Transform3f_identity Matrix3f_identity "Vec3f 0 0 0" 11]
  from inst have g: "geoms (CollisionObject_geom wide_computeLocalAABB sample_world 10 0) =
      (geoms sample_world)(0 := wide_computeLocalAABB (geoms sample_world 0))"
    by (elim conjE)
  from inst have b: "getAABB (CollisionObject_geom wide_computeLocalAABB sample_world 10 0) 10 =
      aabb_local (wide_computeLocalAABB (geoms sample_world 0))"
    by (elim conjE)
  show ?thesis
    unfolding g b by (simp add: wide_computeLocalAABB_def sample_world_def unit_sphere_def)
qed

text \<open>
  C8 as stated fails: with an implementation of \<open>computeLocalAABB()\<close> that counts its
  invocations, the count of geometry \<open>0\<close> is \<open>0\<close> at first, \<open>1\<close> after an object has been
  constructed from it, and \<open>2\<close> after a second object has been constructed from it.
\<close>

theorem second_construction_recomputes_local_bound:
  "user_data (geoms sample_world 0) = 0
   \<and> user_data (geoms (CollisionObject_geom counting_computeLocalAABB sample_world 10 0) 0) = 1
   \<and> user_data (geoms (CollisionObject_geom counting_computeLocalAABB
        (CollisionObject_geom counting_computeLocalAABB sample_world 10 0) 11 0) 0) = 2"
  by (simp add: CollisionObject_geom_def constructor_geoms counting_computeLocalAABB_def
      sample_world_def unit_sphere_def)

subsection \<open>Queries of a manager against itself\<close>

text \<open>
  C5. A cross-manager query whose other manager is the manager itself is the self query: for
  every callback and every caller's data, \<open>collide\<close> and \<open>distance\<close> with the manager passed
  as the other manager return what the self forms return, and the callback is invoked on the
  same pairs in the same order. No pair of registry positions is visited twice or in both
  orders: the pairs offered are those of the strict upper triangle, in which every pair of
  positions \<open>i < j\<close> occurs exactly once; collide invokes the callback on those with
  overlapping bounds, distance on those whose bound distance is below the running minimum, up
  to the first invocation that returns true.
\<close>

theorem cross_query_on_itself_is_self_query:
  "collide_mgr W m m cdata callback = collide_self W m cdata callback
   \<and> distance_mgr W m m cdata dcallback = distance_self W m cdata dcallback
   \<and> collide_mgr W m m (cdata, []) (logged callback) = collide_self W m (cdata, []) (logged callback)
   \<and> distance_mgr W m m (cdata, []) (logged_dist dcallback) =
       distance_self W m (cdata, []) (logged_dist dcallback)
   \<and> collide_mgr W m m (cdata, []) (logged callback) =
       (collide_self W m cdata callback,
        invoked callback (filter (pair_overlap W) (upper_triangle (objs (managers W m)))) cdata)
   \<and> distance_mgr W m m (cdata, []) (logged_dist dcallback) =
       ((fst (distance_self W m cdata dcallback),
         invoked_dist W dcallback (upper_triangle (objs (managers W m))) cdata numeric_limits_max),
        snd (distance_self W m cdata dcallback))
   \<and> upper_triangle (objs (managers W m)) =
       map (\<lambda>p. (objs (managers W m) ! fst p, objs (managers W m) ! snd p))
         (triangle (length (objs (managers W m))))
   \<and> distinct (triangle n) \<and> set (triangle n) = {(i, j). i < j \<and> j < n}"
proof -
  have same: "collide_mgr W m m c cb = collide_self W m c cb"
    "distance_mgr W m m c dcb = distance_self W m c dcb" for c :: 'x and cb dcb
    by (simp_all add: collide_mgr_def collide_self_def distance_mgr_def distance_self_def)
  show ?thesis
    unfolding same collide_self_logged distance_self_logged
    by (simp add: upper_triangle_def distinct_triangle set_triangle)
qed

theorem cross_query_on_itself_is_self_query_witness:
  "collide_mgr sample_world 0 0 ((), []) (logged keep_going) = ((), [(0, 2), (2, 4)])
   \<and> collide_self sample_world 0 ((), []) (logged keep_going) = ((), [(0, 2), (2, 4)])
   \<and> snd (fst (distance_mgr sample_world 0 0 ((), []) (logged_dist passive_cb))) = [(0, 2), (0, 4), (2, 4)]
   \<and> snd (fst (distance_self sample_world 0 ((), []) (logged_dist passive_cb))) = [(0, 2), (0, 4), (2, 4)]
   \<and> upper_triangle (objs (managers sample_world 0)) = [(0, 2), (0, 4), (2, 4)]"
proof -
  note inst = cross_query_on_itself_is_self_query[of sample_world 0 "()" keep_going passive_cb 3]
  have d: "invoked_dist sample_world passive_cb [(0, 2), (0, 4), (2, 4)] () numeric_limits_max =
      [(0, 2), (0, 4), (2, 4)]"
    using numeric_limits_max_pos by (simp add: passive_cb_def sample_pair_distance)
  have c: "invoked keep_going [(0, 2), (2, 4)] () = [(0, 2), (2, 4)]"
    by (simp add: keep_going_def)
  have ut: "upper_triangle (objs (managers sample_world 0)) = [(0, 2), (0, 4), (2, 4)]"
    by (simp add: sample_objs sample_upper_triangle)
  have cand: "filter (pair_overlap sample_world) (upper_triangle (objs (managers sample_world 0))) =
      [(0, 2), (2, 4)]"
    by (simp add: sample_objs sample_candidates)
  from inst have cm: "collide_mgr sample_world 0 0 ((), []) (logged keep_going) =
      (collide_self sample_world 0 () keep_going,
       invoked keep_going (filter (pair_overlap sample_world)
         (upper_triangle (objs (managers sample_world 0)))) ())"
    by (elim conjE)
  from inst have cs: "collide_mgr sample_world 0 0 ((), []) (logged keep_going) =
      collide_self sample_world 0 ((), []) (logged keep_going)"
    by (elim conjE)
  from inst have dm: "distance_mgr sample_world 0 0 ((), []) (logged_dist passive_cb) =
      ((fst (distance_self sample_world 0 () passive_cb),
        invoked_dist sample_world passive_cb (upper_triangle (objs (managers sample_world 0))) ()
          numeric_limits_max),
       snd (distance_self sample_world 0 () passive_cb))"
    by (elim conjE)
  from inst have ds: "distance_mgr sample_world 0 0 ((), []) (logged_dist passive_cb) =
      distance_self sample_world 0 ((), []) (logged_dist passive_cb)"
    by (elim conjE)
  have r1: "collide_mgr sample_world 0 0 ((), []) (logged keep_going) = ((), [(0, 2), (2, 4)])"
    unfolding cm cand c by simp
  have r3: "snd (fst (distance_mgr sample_world 0 0 ((), []) (logged_dist passive_cb))) =
      [(0, 2), (0, 4), (2, 4)]"
    unfolding dm ut d by simp
  from r1 cs have r2: "collide_self sample_world 0 ((), []) (logged keep_going) = ((), [(0, 2), (2, 4)])"
    by (rule subst[where P = "\<lambda>x. x = ((), [(0, 2), (2, 4)])", rotated])
  from r3 ds have r4: "snd (fst (distance_self sample_world 0 ((), []) (logged_dist passive_cb))) =
      [(0, 2), (0, 4), (2, 4)]"
    by (rule subst[where P = "\<lambda>x. snd (fst x) = [(0, 2), (0, 4), (2, 4)]", rotated])
  from r1 r2 r3 r4 ut show ?thesis by (intro conjI)
qed

text \<open>
  C6. Self-collide goes through the strict upper triangle of the matrix of registry positions,
  row by row: every pair of positions \<open>i < j\<close> occurs exactly once among the candidates, and
  the unordered pairs of objects considered are the same for every order of registration. The
  callback is invoked on the candidates whose bounds overlap, in this order, and on no other
  pair; when an invocation returns true the query returns at once, so that this pair is the
  last one the callback has seen.
\<close>

theorem self_collide_upper_triangle:
  "collide_self W m (c, []) (logged cb) =
     (collide_self W m c cb, invoked cb (filter (pair_overlap W) (upper_triangle (objs (managers W m)))) c)
   \<and> distinct (triangle n) \<and> set (triangle n) = {(i, j). i < j \<and> j < n}
   \<and> (mset xs = mset ys \<longrightarrow>
        mset (map unordered (upper_triangle xs)) = mset (map unordered (upper_triangle ys)))
   \<and> (\<forall>p \<in> set (snd (collide_self W m (c, []) (logged cb))). pair_overlap W p)
   \<and> (filter (pair_overlap W) (upper_triangle (objs (managers W m))) = pre @ p # post \<and>
        offer cb pre c = (False, c') \<and> fst (cb (fst p) (snd p) c') \<longrightarrow>
        collide_self W m (c, []) (logged cb) = (snd (cb (fst p) (snd p) c'), pre @ [p]))"
proof (intro conjI impI ballI)
  show "collide_self W m (c, []) (logged cb) =
     (collide_self W m c cb, invoked cb (filter (pair_overlap W) (upper_triangle (objs (managers W m)))) c)"
    by (rule collide_self_logged)
  show "distinct (triangle n)" by (rule distinct_triangle)
  show "set (triangle n) = {(i, j). i < j \<and> j < n}" by (rule set_triangle)
next
  assume "mset xs = mset ys"
  then show "mset (map unordered (upper_triangle xs)) = mset (map unordered (upper_triangle ys))"
    unfolding cursor_pairs_upper_triangle[symmetric] mset_map by (rule unordered_cursor_pairs_perm)
next
  fix q assume "q \<in> set (snd (collide_self W m (c, []) (logged cb)))"
  then have "q \<in> set (filter (pair_overlap W) (upper_triangle (objs (managers W m))))"
    unfolding collide_self_logged using invoked_subset by fastforce
  then show "pair_overlap W q" by simp
next
  assume h: "filter (pair_overlap W) (upper_triangle (objs (managers W m))) = pre @ p # post \<and>
        offer cb pre c = (False, c') \<and> fst (cb (fst p) (snd p) c')"
  then have "invoked cb pre c = pre" by (simp add: invoked_no_stop)
  moreover from h have "collide_self W m c cb = snd (cb (fst p) (snd p) c')"
    unfolding collide_self_offer by (auto simp: offer_append split: prod.splits)
  moreover from h have "invoked cb (pre @ p # post) c = invoked cb pre c @ [p]"
    by (auto simp: invoked_append split: prod.splits)
  ultimately show "collide_self W m (c, []) (logged cb) = (snd (cb (fst p) (snd p) c'), pre @ [p])"
    using h unfolding collide_self_logged by simp
qed

theorem self_collide_upper_triangle_witness:
  "mset [0, 2, 4 :: nat] = mset [4, 0, 2]
   \<and> mset (map unordered (upper_triangle [0, 2, 4 :: nat])) = mset (map unordered (upper_triangle [4, 0, 2]))
   \<and> filter (pair_overlap sample_world) (upper_triangle (objs (managers sample_world 0))) = [] @ (0, 2) # [(2, 4)]
   \<and> offer first_hit [] () = (False, ()) \<and> fst (first_hit 0 2 ())
   \<and> collide_self sample_world 0 ((), []) (logged first_hit) = ((), [(0, 2)])
   \<and> pair_overlap sample_world (0, 2)"
  using self_collide_upper_triangle[of sample_world 0 "()" first_hit 3 "[0, 2, 4 :: nat]" "[4, 0, 2 :: nat]"
      "[]" "(0, 2)" "[(2, 4)]" "()"]
  by (simp add: sample_objs sample_candidates first_hit_def)

subsection \<open>Pruning in the collide queries\<close>

text \<open>
  C2, as the code has it. In self-collide and in cross-manager collide every pair the callback
  is invoked on has overlapping world bounds. Single-object collide makes no bound test: the
  callback is offered the query object with every registry entry in turn until it returns
  true, and with all of them when it never does.
\<close>

theorem pairwise_collide_offers_overlapping_pairs:
  "(\<forall>p \<in> set (snd (collide_self W m (c, []) (logged cb))). pair_overlap W p)
   \<and> (\<forall>p \<in> set (snd (collide_mgr W m m' (c, []) (logged cb))). pair_overlap W p)
   \<and> collide_obj W m obj (c, []) (logged cb) =
       (collide_obj W m obj c cb, invoked cb (map (Pair obj) (objs (managers W m))) c)
   \<and> (\<not> fst (offer cb (map (Pair obj) (objs (managers W m))) c) \<longrightarrow>
        snd (collide_obj W m obj (c, []) (logged cb)) = map (Pair obj) (objs (managers W m)))"
proof (intro conjI ballI impI)
  fix p assume "p \<in> set (snd (collide_self W m (c, []) (logged cb)))"
  then have "p \<in> set (filter (pair_overlap W) (upper_triangle (objs (managers W m))))"
    unfolding collide_self_logged using invoked_subset by fastforce
  then show "pair_overlap W p" by simp
next
  fix p assume "p \<in> set (snd (collide_mgr W m m' (c, []) (logged cb)))"
  then show "pair_overlap W p" by (rule collide_mgr_overlap)
next
  show "collide_obj W m obj (c, []) (logged cb) =
       (collide_obj W m obj c cb, invoked cb (map (Pair obj) (objs (managers W m))) c)"
    by (rule collide_obj_logged)
next
  assume "\<not> fst (offer cb (map (Pair obj) (objs (managers W m))) c)"
  then show "snd (collide_obj W m obj (c, []) (logged cb)) = map (Pair obj) (objs (managers W m))"
    by (simp add: collide_obj_logged invoked_no_stop)
qed

theorem pairwise_collide_offers_overlapping_pairs_witness:
  "snd (collide_self sample_world 0 ((), []) (logged keep_going)) = [(0, 2), (2, 4)]
   \<and> snd (collide_mgr sample_world 0 4 ((), []) (logged keep_going)) = [(2, 4), (4, 4)]
   \<and> pair_overlap sample_world (0, 2) \<and> pair_overlap sample_world (2, 4) \<and> pair_overlap sample_world (4, 4)
   \<and> \<not> fst (offer keep_going (map (Pair 0) (objs (managers sample_world 0))) ())
   \<and> snd (collide_obj sample_world 0 0 ((), []) (logged keep_going)) = [(0, 0), (0, 2), (0, 4)]"
  using pairwise_collide_offers_overlapping_pairs[of sample_world 0 "()" keep_going 4 0]
  by (simp add: sample_logs sample_pair_overlap sample_objs keep_going_def)

text \<open>
  C2 as stated fails for single-object collide: in the sample world the query of object \<open>0\<close>
  against manager \<open>0\<close> invokes the callback on the pair \<open>(0, 4)\<close>, whose bounds
  \<open>[-1,1]\<^sup>3\<close> and \<open>[2,4] \<times> [-1,1]\<^sup>2\<close> do not overlap.
\<close>

theorem single_object_collide_offers_disjoint_pair:
  "(0, 4) \<in> set (snd (collide_obj sample_world 0 0 ((), []) (logged keep_going)))
   \<and> \<not> overlap (getAABB sample_world 0) (getAABB sample_world 4)"
  using sample_pair_overlap(3)
  by (simp add: sample_logs pair_overlap_def)

subsection \<open>The running minimum of self-distance\<close>

text \<open>
  C3, as the code has it. The manager never assigns the running minimum; only the callback
  does, through the reference it is given. On a registry of at least two entries: with a
  callback that never stops and never changes the running minimum, the running minimum is
  still the seed \<^verbatim>\<open>numeric_limits::max()\<close> when self-distance returns, and the callback
  has been invoked on every pair of the upper triangle whose bound distance is below the seed;
  with a callback that never stops and lowers the running minimum to the bound distance of the
  pair it is given, the running minimum at return is the least pairwise bound distance (or the
  seed, if that is smaller).
\<close>

theorem self_distance_running_minimum:
  "(2 \<le> length (objs (managers W m)) \<and>
      (\<forall>a b c md. fst (cb a b c md) = False \<and> snd (snd (cb a b c md)) = md) \<longrightarrow>
      snd (distance_self W m cdata cb) = Some numeric_limits_max
      \<and> snd (fst (distance_self W m (cdata, []) (logged_dist cb))) =
          filter (\<lambda>p. pair_distance W p < numeric_limits_max) (upper_triangle (objs (managers W m))))
   \<and> (2 \<le> length (objs (managers W m)) \<and>
      (\<forall>a b c md. fst (cb' a b c md) = False \<and> snd (snd (cb' a b c md)) = pair_distance W (a, b)) \<longrightarrow>
      snd (distance_self W m cdata cb') =
        Some (min numeric_limits_max (Min (pair_distance W ` set (upper_triangle (objs (managers W m)))))))"
proof (intro conjI impI)
  assume h: "2 \<le> length (objs (managers W m)) \<and>
      (\<forall>a b c md. fst (cb a b c md) = False \<and> snd (snd (cb a b c md)) = md)"
  then have ne: "objs (managers W m) \<noteq> []" by auto
  from h have p: "\<forall>a b c md. fst (cb a b c md) = False \<and> snd (snd (cb a b c md)) = md" by blast
  show "snd (distance_self W m cdata cb) = Some numeric_limits_max"
    using ne offer_dist_passive[OF p] by (simp add: distance_self_offer)
  show "snd (fst (distance_self W m (cdata, []) (logged_dist cb))) =
          filter (\<lambda>p. pair_distance W p < numeric_limits_max) (upper_triangle (objs (managers W m)))"
    using ne invoked_dist_passive[OF p]
    by (simp add: distance_self_offer offer_dist_logged split: prod.splits)
next
  assume h: "2 \<le> length (objs (managers W m)) \<and>
      (\<forall>a b c md. fst (cb' a b c md) = False \<and> snd (snd (cb' a b c md)) = pair_distance W (a, b))"
  then have ne: "objs (managers W m) \<noteq> []" by auto
  from h have tri: "upper_triangle (objs (managers W m)) \<noteq> []" by (simp add: upper_triangle_nonempty)
  from h have p: "\<forall>a b c md. fst (cb' a b c md) = False \<and> snd (snd (cb' a b c md)) = pair_distance W (a, b)"
    by blast
  have "snd (distance_self W m cdata cb') =
      Some (Min (insert numeric_limits_max (pair_distance W ` set (upper_triangle (objs (managers W m))))))"
    using ne offer_dist_tightening[OF p] by (simp add: distance_self_offer)
  also have "Min (insert numeric_limits_max (pair_distance W ` set (upper_triangle (objs (managers W m))))) =
      min numeric_limits_max (Min (pair_distance W ` set (upper_triangle (objs (managers W m)))))"
    using tri by simp
  finally show "snd (distance_self W m cdata cb') =
        Some (min numeric_limits_max (Min (pair_distance W ` set (upper_triangle (objs (managers W m))))))" .
qed

theorem self_distance_running_minimum_witness:
  "2 \<le> length (objs (managers sample_world 0))
   \<and> snd (distance_self sample_world 0 () passive_cb) = Some numeric_limits_max
   \<and> snd (fst (distance_self sample_world 0 ((), []) (logged_dist passive_cb))) = [(0, 2), (0, 4), (2, 4)]
   \<and> snd (distance_self sample_world 0 () (tightening sample_world)) = Some 0"
proof -
  have p: "\<forall>a b c md. fst (passive_cb a b c md) = False \<and> snd (snd (passive_cb a b c md)) = md"
    by (simp add: passive_cb_def)
  have q: "\<forall>a b c md. fst (tightening sample_world a b c md) = False \<and>
      snd (snd (tightening sample_world a b c md)) = pair_distance sample_world (a, b)"
    by (simp add: tightening_def)
  have l: "2 \<le> length (objs (managers sample_world 0))" by (simp add: sample_objs)
  have f: "filter (\<lambda>p. pair_distance sample_world p < numeric_limits_max) (upper_triangle [0, 2, 4])
      = [(0, 2), (0, 4), (2, 4)]"
    using numeric_limits_max_pos by (simp add: sample_upper_triangle sample_pair_distance)
  have mn: "min numeric_limits_max 0 = 0" using numeric_limits_max_pos by simp
  from self_distance_running_minimum[of sample_world 0 passive_cb "()" "tightening sample_world"] p q l
  show ?thesis by (simp add: f sample_objs sample_min_distance mn)
qed

text \<open>
  C3 as stated fails: on the three objects of manager \<open>0\<close> of the sample world, with the
  callback that never stops and never changes the running minimum, self-distance returns with
  the running minimum at the seed, while the least pairwise bound distance is \<open>0\<close>.
\<close>

theorem self_distance_passive_callback_keeps_seed:
  "2 \<le> length (objs (managers sample_world 0))
   \<and> snd (distance_self sample_world 0 () passive_cb) = Some numeric_limits_max
   \<and> Min (pair_distance sample_world ` set (upper_triangle (objs (managers sample_world 0)))) = 0
   \<and> numeric_limits_max \<noteq> 0"
proof -
  have "\<forall>a b c md. fst (passive_cb a b c md) = False \<and> snd (snd (passive_cb a b c md)) = md"
    by (simp add: passive_cb_def)
  from offer_dist_passive[OF this] have "snd (distance_self sample_world 0 () passive_cb) = Some numeric_limits_max"
    by (simp add: distance_self_offer sample_objs)
  then show ?thesis
    using numeric_limits_max_pos by (simp add: sample_objs sample_min_distance)
qed

subsection \<open>Single-object queries and the query object itself\<close>




end
